theory Spec2Isabelle
  imports Complex_Main "HOL-Library.AList"
begin

text \<open>
  A shallow embedding of the two subsystems of the eWeLink bridge that carry its
  algorithms: the websocket session client with its expiring cache, and the controller
  that emulates a window covering on two relays of a multi-channel switch.

  Conventions.
  \<^item> A JavaScript function that runs in one turn of the event loop is one HOL function
    from the state before to the state after. A function that spans several turns is
    split at its timers and promise continuations, one HOL function per turn.
  \<^item> What a function reads from its environment (\<^verbatim>\<open>Date.now()\<close>,
    \<^verbatim>\<open>Math.random()\<close>, the nonce, the outcome of a request) is a parameter.
  \<^item> Within one turn every call of \<^verbatim>\<open>Date.now()\<close> gets the same reading,
    except in \<^verbatim>\<open>onopen\<close>, where two readings are compared.
  \<^item> An uncaught exception is the value \<open>Inl\<close> of a sum. In the motion
    controller it comes with the state that the turn has reached when it is thrown.
  \<^item> In the session client time is the millisecond clock, a natural number. In the
    motion controller every JavaScript number is a real number: positions, durations
    and timestamps are computed exactly, without the rounding of doubles.
\<close>

section \<open>Expiring cache\<close>

text \<open>
  \<^verbatim>\<open>Cache<T>\<close> keeps two maps, \<^verbatim>\<open>cacheMap\<close> and \<^verbatim>\<open>timerMap\<close>, and
  arms one runtime timer per \<^verbatim>\<open>set\<close>. The timers that the runtime still holds for
  the cache are part of the model's state (\<open>pending\<close>): a handle, the instant at which
  the timer is due, and the key captured by its closure. Handles are the objects returned
  by \<^verbatim>\<open>setTimeout\<close>; they are numbered in the order of their creation. Time is the
  millisecond clock, a natural number. The \<^verbatim>\<open>expiry\<close> events handed to the event
  emitter are logged with the instant at which they were emitted. The methods
  \<^verbatim>\<open>get\<close>, \<^verbatim>\<open>set\<close>, \<^verbatim>\<open>delete\<close> and \<^verbatim>\<open>_clearTimer\<close> are
  \<open>cache_get\<close>, \<open>cache_set\<close>, \<open>cache_delete\<close> and \<open>clearTimer\<close>.
\<close>

record cache_timer =
  handle :: nat
  due :: nat
  timer_key :: string

record 'v cache =
  cacheMap :: "string \<rightharpoonup> 'v"
  timerMap :: "string \<rightharpoonup> nat"
  defaultCacheDuration :: nat
  pending :: "cache_timer list"
  nextHandle :: nat
  emitted :: "(nat \<times> string) list"

definition new_Cache :: "nat \<Rightarrow> 'v cache" where
  "new_Cache duration =
     \<lparr>cacheMap = Map.empty, timerMap = Map.empty, defaultCacheDuration = duration,
      pending = [], nextHandle = 0, emitted = []\<rparr>"

definition clearTimeout :: "nat \<Rightarrow> cache_timer list \<Rightarrow> cache_timer list" where
  "clearTimeout h ts = filter (\<lambda>t. handle t \<noteq> h) ts"

definition clearTimer :: "string \<Rightarrow> 'v cache \<Rightarrow> 'v cache" where
  "clearTimer key c =
     (case timerMap c key of
        None \<Rightarrow> c
      | Some existingTimerId \<Rightarrow> c\<lparr>pending := clearTimeout existingTimerId (pending c)\<rparr>)"

definition cache_get :: "'v cache \<Rightarrow> string \<Rightarrow> 'v option" where
  "cache_get c key = cacheMap c key"

definition cache_set :: "nat \<Rightarrow> string \<Rightarrow> 'v \<Rightarrow> nat \<Rightarrow> 'v cache \<Rightarrow> 'v cache" where
  "cache_set now key v cacheDuration c =
     (let c1 = clearTimer key c;
          c2 = c1\<lparr>cacheMap := (cacheMap c1)(key \<mapsto> v)\<rparr>;
          timerId = nextHandle c2
      in c2\<lparr>pending := pending c2 @ [\<lparr>handle = timerId, due = now + cacheDuration, timer_key = key\<rparr>],
             nextHandle := Suc timerId,
             timerMap := (timerMap c2)(key \<mapsto> timerId)\<rparr>)"

definition cache_set_default :: "nat \<Rightarrow> string \<Rightarrow> 'v \<Rightarrow> 'v cache \<Rightarrow> 'v cache" where
  "cache_set_default now key v c = cache_set now key v (defaultCacheDuration c) c"

definition cache_delete :: "string \<Rightarrow> 'v cache \<Rightarrow> 'v cache" where
  "cache_delete key c = clearTimer key (c\<lparr>cacheMap := (cacheMap c)(key := None)\<rparr>)"

text \<open>The body of the timer armed by \<^verbatim>\<open>set\<close>, run at the instant the timer is due.\<close>

definition expire :: "'v cache \<Rightarrow> cache_timer \<Rightarrow> 'v cache" where
  "expire c t =
     (let removed = (cacheMap c (timer_key t) \<noteq> None);
          c1 = c\<lparr>cacheMap := (cacheMap c)(timer_key t := None)\<rparr>
      in if removed then c1\<lparr>emitted := emitted c1 @ [(due t, timer_key t)]\<rparr> else c1)"

text \<open>
  The runtime, between two calls into the cache: every pending timer that is due by the
  instant \<open>T\<close> runs, in the order of the due instants and, among equal ones, in the order
  of creation.
\<close>

definition run_timers :: "nat \<Rightarrow> 'v cache \<Rightarrow> 'v cache" where
  "run_timers T c =
     foldl expire (c\<lparr>pending := filter (\<lambda>t. \<not> due t \<le> T) (pending c)\<rparr>)
       (sort_key due (filter (\<lambda>t. due t \<le> T) (pending c)))"

definition expiries_of :: "string \<Rightarrow> 'v cache \<Rightarrow> (nat \<times> string) list" where
  "expiries_of key c = filter (\<lambda>e. snd e = key) (emitted c)"

text \<open>
  Every timer that the runtime still holds for the cache is the one that
  \<^verbatim>\<open>timerMap\<close> records for its key. The constructor establishes this and every
  operation keeps it (lemmas \<open>tracked_new_Cache\<close> to \<open>tracked_run_timers\<close>).
\<close>

definition tracked :: "'v cache \<Rightarrow> bool" where
  "tracked c = (\<forall>t\<in>set (pending c). timerMap c (timer_key t) = Some (handle t))"

section \<open>Session manager\<close>

subsection \<open>Sequence values\<close>

text \<open>
  \<^verbatim>\<open>getSequence\<close> returns \<^verbatim>\<open>"" + Date.now()\<close>: the decimal rendering of the
  millisecond clock. The clock reading is a parameter of the model.
\<close>

definition digit_char :: "nat \<Rightarrow> char" where
  "digit_char d = ''0123456789'' ! d"

function string_of_nat :: "nat \<Rightarrow> string" where
  "string_of_nat n =
     (if n < 10 then [digit_char n] else string_of_nat (n div 10) @ [digit_char (n mod 10)])"
  by pat_completeness auto
termination
  by (relation "measure id") auto

declare string_of_nat.simps [simp del]

definition getSequence :: "nat \<Rightarrow> string" where
  "getSequence now = string_of_nat now"

text \<open>The number that a sequence value denotes, to compare two of them.\<close>

definition digit_value :: "char \<Rightarrow> nat" where
  "digit_value ch = of_char ch - 48"

definition sequence_value :: "string \<Rightarrow> nat" where
  "sequence_value s = foldl (\<lambda>acc ch. 10 * acc + digit_value ch) 0 s"

subsection \<open>Payloads\<close>

text \<open>
  A JavaScript object with string keys is an association list in insertion order.
  Assigning a property keeps the position of a key that is present and appends a new
  one, which is \<^const>\<open>AList.update\<close>; \<^verbatim>\<open>Object.assign(target, source)\<close> assigns
  the properties of the source to the target one after the other.
\<close>

datatype json =
  JString string | JNumber int | JBool bool | JNull
  | JArray "json list" | JObject "(string \<times> json) list"

type_synonym js_object = "(string \<times> json) list"

definition Object_assign :: "js_object \<Rightarrow> js_object \<Rightarrow> js_object" where
  "Object_assign target source = foldl (\<lambda>t (k, v). AList.update k v t) target source"

definition attachRequestId :: "js_object \<Rightarrow> string \<Rightarrow> js_object" where
  "attachRequestId data requestId = Object_assign [(''sequence'', JString requestId)] data"

definition extractRequestId :: "js_object \<Rightarrow> json option" where
  "extractRequestId data = map_of data ''sequence''"

record config =
  authenticationToken :: string
  apiKey :: string

definition populateCommonApiRequestFields :: "nat \<Rightarrow> string \<Rightarrow> js_object \<Rightarrow> js_object" where
  "populateCommonApiRequestFields now nonce obj =
     AList.update ''romVersion'' (JString ''11.1.2'')
       (AList.update ''model'' (JString ''iPhone10,6'')
         (AList.update ''os'' (JString ''iOS'')
           (AList.update ''nonce'' (JString nonce)
             (AList.update ''ts'' (JString (string_of_nat (now div 1000)))
               (AList.update ''version'' (JString ''6'') obj)))))"

subsection \<open>The connection object\<close>

text \<open>
  \<^verbatim>\<open>WebSocketAsPromised\<close> is a library outside the repository; the client uses its
  \<^verbatim>\<open>sendRequest\<close>, \<^verbatim>\<open>removeAllListeners\<close> and listener channels. Its part
  in the model is what the client configures: \<^verbatim>\<open>sendRequest(data, {requestId})\<close>
  registers the request under \<open>requestId\<close>, the key a response is matched with via
  \<^verbatim>\<open>extractRequestId\<close>, and sends \<^verbatim>\<open>attachRequestId(data, requestId)\<close>.
\<close>

record ws_instance =
  inst_url :: string
  listeners :: bool
  packets :: "js_object list"
  requests :: "string list"

definition new_WebSocketAsPromised :: "string \<Rightarrow> ws_instance" where
  "new_WebSocketAsPromised u = \<lparr>inst_url = u, listeners = True, packets = [], requests = []\<rparr>"

definition sendRequest :: "js_object \<Rightarrow> string \<Rightarrow> ws_instance \<Rightarrow> ws_instance" where
  "sendRequest data requestId i =
     i\<lparr>packets := packets i @ [attachRequestId data requestId],
       requests := requests i @ [requestId]\<rparr>"

text \<open>
  Every request of the client is sent as
  \<^verbatim>\<open>sendRequest(payload, {requestId: this.getSequence()})\<close>; \<open>issue\<close> sends a
  series of payloads, each at its own clock reading.
\<close>

definition request :: "nat \<Rightarrow> js_object \<Rightarrow> ws_instance \<Rightarrow> ws_instance" where
  "request now payload i = sendRequest payload (getSequence now) i"

definition issue :: "(nat \<times> js_object) list \<Rightarrow> ws_instance \<Rightarrow> ws_instance" where
  "issue rs i = foldl (\<lambda>i (now, payload). request now payload i) i rs"

subsection \<open>The inbound message decoder\<close>

text \<open>
  The decoder handed to the connection object (\<^verbatim>\<open>unpackMessage\<close> in
  \<^verbatim>\<open>open\<close>) compares the raw text with the heartbeat reply and otherwise calls
  \<^verbatim>\<open>JSON.parse\<close>. \<^verbatim>\<open>JSON.parse\<close> belongs to the runtime, not to the
  repository, so it is a parameter: a function from the raw text to either a syntax
  error or a parsed value.
\<close>

datatype 'j unpacked = Heartbeat string | Parsed 'j

definition unpackMessage :: "(string \<Rightarrow> 'e + 'j) \<Rightarrow> string \<Rightarrow> 'e + 'j unpacked" where
  "unpackMessage JSON_parse data =
     (if data = ''pong'' then Inr (Heartbeat data)
      else (case JSON_parse data of Inl e \<Rightarrow> Inl e | Inr j \<Rightarrow> Inr (Parsed j)))"

subsection \<open>The client\<close>

datatype js_error = TypeError | Error string

record client =
  number :: nat
  autoReconnectInterval :: nat
  pendingReconnect :: bool
  socketOpen :: bool
  "instance" :: "ws_instance option"
  pingInterval :: "nat option"
  url :: "string option"
  deviceStatusMap :: "js_object cache"
  client_config :: config
  reconnects :: "nat list"

text \<open>
  \<open>reconnects\<close> holds the due instants of the timers armed by \<^verbatim>\<open>reconnect\<close> that
  have not run yet; \<open>pingInterval\<close> holds the period of the heartbeat timer.
\<close>

definition new_WebSocketClient :: "config \<Rightarrow> client" where
  "new_WebSocketClient cfg =
     \<lparr>number = 0, autoReconnectInterval = 5 * 1000, pendingReconnect = False,
      socketOpen = False, instance = None, pingInterval = None, url = None,
      deviceStatusMap = new_Cache 500, client_config = cfg, reconnects = []\<rparr>"

definition client_open :: "string \<Rightarrow> client \<Rightarrow> client" where
  "client_open u c = c\<lparr>url := Some u, instance := Some (new_WebSocketAsPromised u)\<rparr>"

definition reconnect :: "nat \<Rightarrow> client \<Rightarrow> client" where
  "reconnect now c =
     (if \<not> pendingReconnect c then
        c\<lparr>pendingReconnect := True,
          instance := map_option (\<lambda>i. i\<lparr>listeners := False\<rparr>) (instance c),
          reconnects := reconnects c @ [now + autoReconnectInterval c]\<rparr>
      else c)"

text \<open>
  The body of the timer armed by \<^verbatim>\<open>reconnect\<close>, and the runtime running the
  oldest such timer.
\<close>

definition reconnect_timeout :: "client \<Rightarrow> js_error + client" where
  "reconnect_timeout c =
     (case url c of
        None \<Rightarrow> Inl (Error ''Attempted reconnect without a URL'')
      | Some u \<Rightarrow>
          if u = [] then Inl (Error ''Attempted reconnect without a URL'')
          else Inr (client_open u (c\<lparr>pendingReconnect := False\<rparr>)))"

definition run_reconnect :: "client \<Rightarrow> js_error + client" where
  "run_reconnect c =
     (case reconnects c of
        [] \<Rightarrow> Inr c
      | d # ds \<Rightarrow> reconnect_timeout (c\<lparr>reconnects := ds\<rparr>))"

text \<open>The listeners that \<^verbatim>\<open>open\<close> registers for the close and error channels.\<close>

definition onClose :: "nat \<Rightarrow> int \<Rightarrow> client \<Rightarrow> client" where
  "onClose now e c =
     (let c1 = (if e = 1000 then c else reconnect now c)
      in c1\<lparr>socketOpen := False, pingInterval := None\<rparr>)"

definition onError :: "nat \<Rightarrow> string \<Rightarrow> client \<Rightarrow> client" where
  "onError now code c = (if code = ''ECONNREFUSED'' then reconnect now c else c)"

text \<open>
  The listener for unpacked messages counts them; the continuation of the login request
  starts the heartbeat when the response carries \<^verbatim>\<open>config.hb\<close> and
  \<^verbatim>\<open>config.hbInterval\<close> (the argument is that interval, if both are there; an
  interval of 0 counts as absent).
\<close>

definition onUnpackedMessage :: "client \<Rightarrow> client" where
  "onUnpackedMessage c = c\<lparr>number := number c + 1\<rparr>"

definition login_response :: "nat option \<Rightarrow> client \<Rightarrow> client" where
  "login_response hbInterval c =
     (case hbInterval of
        None \<Rightarrow> c
      | Some interval \<Rightarrow>
          if interval = 0 then c
          else c\<lparr>pingInterval := Some ((interval + 7) * 1000)\<rparr>)"

text \<open>
  A series of signals reaching the two listeners, each with the instant of its delivery;
  a signal is abnormal when it is a close with a code other than 1000 or an error with
  the code \<^verbatim>\<open>ECONNREFUSED\<close>.
\<close>

datatype signal = Close int | Failure string

fun deliver :: "client \<Rightarrow> nat \<times> signal \<Rightarrow> client" where
  "deliver c (now, Close e) = onClose now e c"
| "deliver c (now, Failure code) = onError now code c"

fun abnormal :: "nat \<times> signal \<Rightarrow> bool" where
  "abnormal (now, Close e) = (e \<noteq> 1000)"
| "abnormal (now, Failure code) = (code = ''ECONNREFUSED'')"

text \<open>
  \<^verbatim>\<open>onopen\<close> reads the clock three times: for \<^verbatim>\<open>payload.sequence\<close>, for
  \<^verbatim>\<open>ts\<close> and for the request id. The three readings and the nonce are parameters.
\<close>

definition login_payload :: "config \<Rightarrow> nat \<Rightarrow> nat \<Rightarrow> string \<Rightarrow> js_object" where
  "login_payload cfg now_sequence now_ts nonce =
     populateCommonApiRequestFields now_ts nonce
       [(''action'', JString ''userOnline''),
        (''userAgent'', JString ''app''),
        (''apkVesrion'', JString ''1.8''),
        (''at'', JString (authenticationToken cfg)),
        (''apikey'', JString (apiKey cfg)),
        (''sequence'', JString (getSequence now_sequence))]"

definition onopen :: "nat \<Rightarrow> nat \<Rightarrow> string \<Rightarrow> nat \<Rightarrow> client \<Rightarrow> js_error + client" where
  "onopen now_sequence now_ts nonce now_request c =
     (let c1 = c\<lparr>socketOpen := True\<rparr>;
          payload = login_payload (client_config c1) now_sequence now_ts nonce
      in case instance c1 of
           None \<Rightarrow> Inl TypeError
         | Some i \<Rightarrow> Inr (c1\<lparr>instance := Some (request now_request payload i)\<rparr>))"

text \<open>
  \<^verbatim>\<open>getDeviceStatus\<close> runs in three turns of the event loop: the call itself, the
  continuation of the pause, and the continuation of the request. The value of
  \<^verbatim>\<open>Math.random()\<close>, the clock readings, the nonce and the outcome of the request
  are parameters. A promise is settled at most once.
\<close>

datatype 'a settled = Resolved 'a | Rejected string

definition query_payload :: "config \<Rightarrow> string \<Rightarrow> nat \<Rightarrow> string \<Rightarrow> js_object" where
  "query_payload cfg deviceId now_ts nonce =
     populateCommonApiRequestFields now_ts nonce
       (AList.update ''at'' (JString (authenticationToken cfg))
         [(''action'', JString ''query''),
          (''apikey'', JString (apiKey cfg)),
          (''deviceid'', JString deviceId),
          (''userAgent'', JString ''app''),
          (''params'', JArray [])])"

definition getDeviceStatus ::
    "client \<Rightarrow> string \<Rightarrow> nat \<Rightarrow> string \<Rightarrow> real \<Rightarrow> js_object settled + (real \<times> js_object)" where
  "getDeviceStatus c deviceId now_ts nonce random =
     (case cache_get (deviceStatusMap c) deviceId of
        Some cachedDeviceStatus \<Rightarrow> Inl (Resolved cachedDeviceStatus)
      | None \<Rightarrow>
          (let payload = query_payload (client_config c) deviceId now_ts nonce;
               delay = (random * 200) + 200
           in Inr (delay, payload)))"

definition getDeviceStatus_after_pause :: "nat \<Rightarrow> js_object \<Rightarrow> client \<Rightarrow> js_error + client" where
  "getDeviceStatus_after_pause now payload c =
     (case instance c of
        None \<Rightarrow> Inl TypeError
      | Some i \<Rightarrow> Inr (c\<lparr>instance := Some (request now payload i)\<rparr>))"

definition getDeviceStatus_settle ::
    "nat \<Rightarrow> string \<Rightarrow> string + js_object \<Rightarrow> client \<Rightarrow> js_object settled \<times> client" where
  "getDeviceStatus_settle now deviceId outcome c =
     (case outcome of
        Inr result \<Rightarrow>
          (Resolved result,
           c\<lparr>deviceStatusMap := cache_set_default now deviceId result (deviceStatusMap c)\<rparr>)
      | Inl err \<Rightarrow> (Rejected err, c))"

section \<open>Motion controller\<close>

text \<open>
  The controller of one window covering: the fields that the platform keeps in
  \<^verbatim>\<open>accessory.context\<close>, the entry of the device registry that
  \<^verbatim>\<open>prepareBlindSwitchesPayload\<close> reads and writes, the commands handed to
  \<^verbatim>\<open>apiClient.updateDeviceStatus\<close>, the timers the controller has armed, and the
  characteristic values shown to the host.

  \<^item> The position states are the numbers of the source: 0 moving up, 1 moving down,
    2 stopped; \<^verbatim>\<open>getBlindState\<close> also returns 3 for both relays on.
  \<^item> \<^verbatim>\<open>durationUp\<close>, \<^verbatim>\<open>durationDown\<close>, the margins and the overdrive
    are seconds; \<^verbatim>\<open>percentDurationUp\<close> and \<^verbatim>\<open>percentDurationDown\<close> are
    milliseconds per percent; timestamps are milliseconds.
  \<^item> A callback that the source writes as \<^verbatim>\<open>function () { ... }\<close> gets its
    \<^verbatim>\<open>this\<close> from its caller: the Timeout object when the runtime runs a timer,
    the Characteristic when the host calls a handler. Neither has the fields
    \<^verbatim>\<open>apiClient\<close>, \<^verbatim>\<open>setFinalBlindsState\<close> or
    \<^verbatim>\<open>setTargetPosition\<close> of the platform, so using them there is a
    \<^verbatim>\<open>TypeError\<close>. An arrow function keeps the platform as its
    \<^verbatim>\<open>this\<close>.
  \<^item> \<^verbatim>\<open>Math.round\<close> rounds to the nearest integer, halves upwards.
\<close>

definition Math_round :: "real \<Rightarrow> real" where
  "Math_round x = of_int \<lfloor>x + 1 / 2\<rfloor>"

record accessory_context =
  switchUp :: int
  switchDown :: int
  durationUp :: real
  durationDown :: real
  durationBMU :: real
  durationBMD :: real
  fullOverdrive :: real
  percentDurationDown :: real
  percentDurationUp :: real
  lastPosition :: real
  currentTargetPosition :: real
  currentPositionState :: nat
  startTimestamp :: real
  targetTimestamp :: real

text \<open>
  The three kinds of timer: the 1 ms timer of \<^verbatim>\<open>setTargetPosition\<close>, written
  to send the command and start the poll, the 100 ms poll, and the 1 ms timer of
  \<^verbatim>\<open>setFinalBlindsState\<close>.

  \<open>registrySwitches\<close> is the array \<^verbatim>\<open>params.switches\<close> of the device in
  \<^verbatim>\<open>devicesFromApi\<close>, as the text of the \<^verbatim>\<open>switch\<close> field of each outlet;
  \<open>deviceRegistered\<close> tells whether the registry has the device. The payload built by
  \<^verbatim>\<open>prepareBlindSwitchesPayload\<close> is this very array, so a command carries the
  content the array has when \<^verbatim>\<open>updateDeviceStatus\<close> is called. \<open>callbacks\<close>
  counts the calls of the host's callback.
\<close>

datatype task = StartMotion | Poll | FinalState

record platform =
  ctx :: accessory_context
  deviceRegistered :: bool
  registrySwitches :: "string list"
  commands :: "string list list"
  timers :: "(real \<times> task) list"
  CurrentPosition :: real
  TargetPosition :: real
  PositionState :: nat
  reachable :: bool
  callbacks :: nat

text \<open>
  Reading or writing \<^verbatim>\<open>switches[i].switch\<close> outside the array is a
  \<^verbatim>\<open>TypeError\<close>.
\<close>

definition read_switch :: "string list \<Rightarrow> int \<Rightarrow> js_error + string" where
  "read_switch switches i =
     (if 0 \<le> i \<and> i < int (length switches) then Inr (switches ! nat i) else Inl TypeError)"

definition write_switch :: "string list \<Rightarrow> int \<Rightarrow> string \<Rightarrow> js_error + string list" where
  "write_switch switches i v =
     (if 0 \<le> i \<and> i < int (length switches) then Inr (switches[nat i := v]) else Inl TypeError)"

definition MAPPING :: "nat \<Rightarrow> nat" where
  "MAPPING sum_value = (if sum_value = 0 then 2 else if sum_value = 1 then 1 else if sum_value = 2 then 0 else 3)"

definition getBlindState :: "string list \<Rightarrow> accessory_context \<Rightarrow> js_error + nat" where
  "getBlindState switches c =
     (case read_switch switches (switchUp c) of
        Inl e \<Rightarrow> Inl e
      | Inr up \<Rightarrow>
          (case read_switch switches (switchDown c) of
             Inl e \<Rightarrow> Inl e
           | Inr down \<Rightarrow>
               (let switch0 = (if up = ''on'' then 1 else 0);
                    switch1 = (if down = ''on'' then 1 else 0);
                    sum_value = (switch0 * 2) + switch1
                in Inr (MAPPING sum_value))))"

text \<open>
  The estimate of the position while moving divides by the milliseconds per percent;
  the model is for coverings whose travel times are not 0.
\<close>

definition actualPosition :: "real \<Rightarrow> accessory_context \<Rightarrow> real" where
  "actualPosition timestamp c =
     (if currentPositionState c = 1 then
        Math_round (lastPosition c - ((timestamp - startTimestamp c) / percentDurationDown c))
      else if currentPositionState c = 0 then
        Math_round (lastPosition c + ((timestamp - startTimestamp c) / percentDurationUp c))
      else lastPosition c)"

definition prepareBlindSwitchesPayload :: "platform \<Rightarrow> js_error \<times> platform + platform" where
  "prepareBlindSwitchesPayload p =
     (if \<not> deviceRegistered p then Inl (TypeError, p)
      else
        (let state = currentPositionState (ctx p);
             switch0 = (if state = 2 then ''off'' else if state = 1 then ''off''
                        else if state = 0 then ''on'' else ''off'');
             switch1 = (if state = 2 then ''off'' else if state = 1 then ''on''
                        else if state = 0 then ''off'' else ''off'')
         in case write_switch (registrySwitches p) (switchUp (ctx p)) switch0 of
              Inl e \<Rightarrow> Inl (e, p)
            | Inr s1 \<Rightarrow>
                (case write_switch s1 (switchDown (ctx p)) switch1 of
                   Inl e \<Rightarrow> Inl (e, p\<lparr>registrySwitches := s1\<rparr>)
                 | Inr s2 \<Rightarrow> Inr (p\<lparr>registrySwitches := s2\<rparr>))))"

text \<open>
  The controller's side of \<^verbatim>\<open>apiClient.updateDeviceStatus\<close>, of the host's
  callback and of \<^verbatim>\<open>setTimeout\<close> and \<^verbatim>\<open>setInterval\<close>.
\<close>

definition updateDeviceStatus :: "platform \<Rightarrow> platform" where
  "updateDeviceStatus p = p\<lparr>commands := commands p @ [registrySwitches p]\<rparr>"

definition callback :: "platform \<Rightarrow> platform" where
  "callback p = p\<lparr>callbacks := Suc (callbacks p)\<rparr>"

definition setTimeout :: "real \<Rightarrow> task \<Rightarrow> platform \<Rightarrow> platform" where
  "setTimeout due_at job p = p\<lparr>timers := timers p @ [(due_at, job)]\<rparr>"

text \<open>
  The local \<^verbatim>\<open>duration\<close> of \<^verbatim>\<open>setTargetPosition\<close> for a stopped
  covering, before it is rounded to hundredths.
\<close>

definition drive_duration :: "accessory_context \<Rightarrow> real \<Rightarrow> real" where
  "drive_duration c pos =
     (let moveUp = (pos > lastPosition c);
          withoutmarginetimeUP = durationUp c - durationBMU c;
          withoutmarginetimeDOWN = durationDown c - durationBMD c;
          duration =
            (if moveUp then
               (if lastPosition c = 0 then
                  ((pos - lastPosition c) / 100 * withoutmarginetimeUP) + durationBMU c
                else (pos - lastPosition c) / 100 * withoutmarginetimeUP)
             else
               (if pos = 0 then
                  ((lastPosition c - pos) / 100 * withoutmarginetimeDOWN) + durationBMD c
                else (lastPosition c - pos) / 100 * withoutmarginetimeDOWN))
      in if pos = 0 \<or> pos = 100 then duration + fullOverdrive c else duration)"

definition setTargetPosition ::
    "real \<Rightarrow> real \<Rightarrow> platform \<Rightarrow> js_error \<times> platform + platform" where
  "setTargetPosition timestamp pos p =
     (let c = ctx p in
      if currentPositionState c \<noteq> 2 then
        (if \<bar>pos - currentTargetPosition c\<bar> = 0 then Inr (callback p)
         else
           (let diffTime =
                  (if currentPositionState c = 1
                   then Math_round (percentDurationDown c * (currentTargetPosition c - pos))
                   else Math_round (percentDurationUp c * (pos - currentTargetPosition c)));
                diff = (targetTimestamp c - timestamp) + diffTime;
                actualPosition = actualPosition timestamp c
            in if diff > 0 then
                 Inr (callback (p\<lparr>ctx := c\<lparr>targetTimestamp := targetTimestamp c + diffTime,
                                           currentTargetPosition := pos\<rparr>\<rparr>))
               else if diff < 0 then
                 (case prepareBlindSwitchesPayload
                         (p\<lparr>ctx := c\<lparr>startTimestamp := timestamp,
                                      targetTimestamp := timestamp + \<bar>diff\<bar>,
                                      lastPosition := actualPosition,
                                      currentTargetPosition := pos,
                                      currentPositionState :=
                                        (if currentPositionState c = 0 then 1 else 0)\<rparr>\<rparr>) of
                    Inl thrown \<Rightarrow> Inl thrown
                  | Inr p1 \<Rightarrow>
                      (let p2 = updateDeviceStatus p1
                       in Inr (callback
                            (p2\<lparr>CurrentPosition := lastPosition (ctx p2),
                                TargetPosition := currentTargetPosition (ctx p2),
                                PositionState := currentPositionState (ctx p2)\<rparr>))))
               else Inr (callback p)))
      else if lastPosition c = pos then Inr (callback p)
      else
        (let moveUp = (pos > lastPosition c);
             duration = Math_round (drive_duration c pos * 100) / 100;
             c1 = c\<lparr>currentTargetPosition := pos,
                    startTimestamp := timestamp,
                    targetTimestamp := timestamp + (duration * 1000),
                    currentPositionState := (if moveUp then 0 else 1)\<rparr>
         in case prepareBlindSwitchesPayload
                   (p\<lparr>ctx := c1, PositionState := (if moveUp then 0 else 1)\<rparr>) of
              Inl thrown \<Rightarrow> Inl thrown
            | Inr p1 \<Rightarrow> Inr (setTimeout (timestamp + 1) StartMotion p1)))"

definition setFinalBlindsState :: "real \<Rightarrow> platform \<Rightarrow> js_error \<times> platform + platform" where
  "setFinalBlindsState now p =
     (case prepareBlindSwitchesPayload (p\<lparr>ctx := (ctx p)\<lparr>currentPositionState := 2\<rparr>\<rparr>) of
        Inl thrown \<Rightarrow> Inl thrown
      | Inr p1 \<Rightarrow> Inr (setTimeout (now + 1) FinalState p1))"

text \<open>
  The bodies of the three timers, run by the runtime at the instant \<open>now\<close>.

  The timer of \<^verbatim>\<open>setTargetPosition\<close> is a \<^verbatim>\<open>function () { ... }\<close>: its
  first statement, \<^verbatim>\<open>this.apiClient.updateDeviceStatus(...)\<close>, reads
  \<^verbatim>\<open>apiClient\<close> from the Timeout object and throws, before the command is sent
  and before the poll is armed. The poll, a \<^verbatim>\<open>function () { ... }\<close> as well,
  would do nothing before the deadline and throw at
  \<^verbatim>\<open>this.setFinalBlindsState(accessory)\<close> from the deadline on. The timer of
  \<^verbatim>\<open>setFinalBlindsState\<close> is an arrow function and runs on the platform.
\<close>

fun fire :: "real \<Rightarrow> task \<Rightarrow> platform \<Rightarrow> js_error \<times> platform + platform" where
  "fire now StartMotion p = Inl (TypeError, p)"
| "fire now Poll p =
     (if now \<ge> targetTimestamp (ctx p) then Inl (TypeError, p)
      else Inr (setTimeout (now + 100) Poll p))"
| "fire now FinalState p =
     (let p1 = updateDeviceStatus p;
          currentTargetPosition = currentTargetPosition (ctx p1)
      in Inr (p1\<lparr>ctx := (ctx p1)\<lparr>currentPositionState := 2,
                                  lastPosition := currentTargetPosition\<rparr>,
                 CurrentPosition := currentTargetPosition,
                 TargetPosition := currentTargetPosition,
                 PositionState := 2\<rparr>))"

text \<open>
  The runtime: the timer that is due first runs first, at the instant it is due, until
  no timer is due by the instant \<open>T\<close> or a timer throws. The first argument bounds
  the number of timers run; \<open>None\<close> means the bound was reached.
\<close>

fun earliest :: "(real \<times> task) list \<Rightarrow> (real \<times> task) option" where
  "earliest [] = None"
| "earliest (t # ts) =
     (case earliest ts of
        None \<Rightarrow> Some t
      | Some u \<Rightarrow> if fst t \<le> fst u then Some t else Some u)"

fun run :: "nat \<Rightarrow> real \<Rightarrow> platform \<Rightarrow> (js_error \<times> platform + platform) option" where
  "run 0 T p = None"
| "run (Suc n) T p =
     (case earliest (timers p) of
        None \<Rightarrow> Some (Inr p)
      | Some t \<Rightarrow>
          if fst t \<le> T then
            (case fire (fst t) (snd t) (p\<lparr>timers := remove1 t (timers p)\<rparr>) of
               Inl thrown \<Rightarrow> Some (Inl thrown)
             | Inr p1 \<Rightarrow> run n T p1)
          else Some (Inr p))"

text \<open>
  \<^verbatim>\<open>service.setCharacteristic(Characteristic.TargetPosition, v)\<close> belongs to the
  host framework: it calls the handler registered for \<^verbatim>\<open>set\<close>. That handler is
  \<^verbatim>\<open>function (value, callback) { this.setTargetPosition(accessory, value, callback); }\<close>,
  called on the Characteristic, so it throws before \<^verbatim>\<open>setTargetPosition\<close> runs,
  and the exception leaves the function that called \<^verbatim>\<open>setCharacteristic\<close>.
  \<open>force_target\<close> is the code shared by the cases 3 and 2 of
  \<^verbatim>\<open>updateBlindStateCharacteristic\<close>.
\<close>

definition host_set_TargetPosition ::
    "real \<Rightarrow> real \<Rightarrow> platform \<Rightarrow> js_error \<times> platform + platform" where
  "host_set_TargetPosition now v p = Inl (TypeError, p)"

definition force_target :: "real \<Rightarrow> platform \<Rightarrow> js_error \<times> platform + platform" where
  "force_target now p =
     (let actualPosition = actualPosition now (ctx p)
      in host_set_TargetPosition now actualPosition
           (p\<lparr>ctx := (ctx p)\<lparr>currentTargetPosition := actualPosition,
                               targetTimestamp := now + 10\<rparr>\<rparr>))"

definition updateBlindStateCharacteristic ::
    "real \<Rightarrow> string list \<Rightarrow> platform \<Rightarrow> js_error \<times> platform + platform" where
  "updateBlindStateCharacteristic now switches p =
     (case getBlindState switches (ctx p) of
        Inl e \<Rightarrow> Inl (e, p)
      | Inr state \<Rightarrow>
          if state = 3 then force_target now p
          else if state = 2 then
            (if currentPositionState (ctx p) = 2 then Inr p else force_target now p)
          else if state = 1 then
            (if currentPositionState (ctx p) = 1 then Inr p
             else if currentTargetPosition (ctx p) = 0 then setFinalBlindsState now p
             else host_set_TargetPosition now 0 p)
          else if state = 0 then
            (if currentPositionState (ctx p) = 0 then Inr p
             else if currentTargetPosition (ctx p) = 100 then setFinalBlindsState now p
             else host_set_TargetPosition now 100 p)
          else Inr p)"

text \<open>
  The continuation of \<^verbatim>\<open>getDeviceStatus\<close> in \<^verbatim>\<open>getPositionState\<close>, given
  the switches of the device it received and the channel count of the device type,
  together with the \<^verbatim>\<open>catch\<close> that follows it: an exception thrown in the
  continuation is caught, \<^verbatim>\<open>accessory.reachable\<close> is set to false and the
  host's callback gets the error. The first component of the result is what the
  callback gets: the error or the position state.
\<close>

definition getPositionState_catch :: "js_error \<times> platform \<Rightarrow> (js_error + nat) \<times> platform" where
  "getPositionState_catch thrown =
     (Inl (fst thrown), callback ((snd thrown)\<lparr>reachable := False\<rparr>))"

definition getPositionState_then ::
    "real \<Rightarrow> nat \<Rightarrow> string list \<Rightarrow> platform \<Rightarrow> (js_error + nat) \<times> platform" where
  "getPositionState_then now switchesAmount switches p =
     (let p1 = (if list_ex (\<lambda>s. s = ''on'') (take switchesAmount switches)
                then p\<lparr>reachable := True\<rparr> else p)
      in if length switches < switchesAmount then getPositionState_catch (TypeError, p1)
         else
           (case getBlindState switches (ctx p1) of
              Inl e \<Rightarrow> getPositionState_catch (e, p1)
            | Inr blindState \<Rightarrow>
                if blindState > 2 then
                  (case setFinalBlindsState now
                          (p1\<lparr>ctx := (ctx p1)\<lparr>currentPositionState := 2\<rparr>\<rparr>) of
                     Inl thrown \<Rightarrow> getPositionState_catch thrown
                   | Inr p2 \<Rightarrow> (Inr 2, callback p2))
                else (Inr blindState, callback p1)))"

text \<open>
  The context that the platform writes when it sets up a blind from its group
  configuration, for a covering resting at \<open>position\<close>; a margin or overdrive that
  the configuration leaves out is 0. \<open>idle_platform\<close> is the controller at rest:
  nothing sent, no timer armed.
\<close>

record blind_group =
  relay_up :: int
  relay_down :: int
  time_up :: real
  time_down :: real
  time_botton_margin_up :: "real option"
  time_botton_margin_down :: "real option"
  full_overdrive :: "real option"

definition or_zero :: "real option \<Rightarrow> real" where
  "or_zero v = (case v of None \<Rightarrow> 0 | Some x \<Rightarrow> x)"

definition blind_context :: "blind_group \<Rightarrow> real \<Rightarrow> accessory_context" where
  "blind_context g position =
     \<lparr>switchUp = relay_up g - 1,
      switchDown = relay_down g - 1,
      durationUp = time_up g,
      durationDown = time_down g,
      durationBMU = or_zero (time_botton_margin_up g),
      durationBMD = or_zero (time_botton_margin_down g),
      fullOverdrive = or_zero (full_overdrive g),
      percentDurationDown = (time_down g / 100) * 1000,
      percentDurationUp = (time_up g / 100) * 1000,
      lastPosition = position,
      currentTargetPosition = position,
      currentPositionState = 2,
      startTimestamp = 0,
      targetTimestamp = 0\<rparr>"

definition idle_platform :: "accessory_context \<Rightarrow> string list \<Rightarrow> platform" where
  "idle_platform c switches =
     \<lparr>ctx = c, deviceRegistered = True, registrySwitches = switches, commands = [],
      timers = [], CurrentPosition = lastPosition c,
      TargetPosition = currentTargetPosition c, PositionState = 2, reachable = False,
      callbacks = 0\<rparr>"

text \<open>A configuration for the examples: 10 s of full travel in either direction.\<close>

definition example_group :: blind_group where
  "example_group =
     \<lparr>relay_up = 1, relay_down = 2, time_up = 10, time_down = 10,
      time_botton_margin_up = None, time_botton_margin_down = None, full_overdrive = None\<rparr>"

text \<open>
  The duration as claim C2 words it: travel time, the bottom margin of the direction
  when the motion leaves position 0, the overdrive when the target is 0 or 100.
\<close>

definition duration_by_claim :: "accessory_context \<Rightarrow> real \<Rightarrow> real" where
  "duration_by_claim c pos =
     (let moveUp = (pos > lastPosition c);
          travel = (if moveUp then (pos - lastPosition c) / 100 * (durationUp c - durationBMU c)
                    else (lastPosition c - pos) / 100 * (durationDown c - durationBMD c));
          margin = (if lastPosition c = 0
                    then (if moveUp then durationBMU c else durationBMD c) else 0);
          overdrive = (if pos = 0 \<or> pos = 100 then fullOverdrive c else 0)
      in travel + margin + overdrive)"

text \<open>
  \<open>payload_ready\<close>: the registry has the device and both relay indices lie inside its
  switches, so that \<^verbatim>\<open>prepareBlindSwitchesPayload\<close> does not throw.
  \<open>relay_patch\<close>: the switches it leaves for a position state.
\<close>

definition payload_ready :: "platform \<Rightarrow> bool" where
  "payload_ready p =
     (deviceRegistered p \<and>
      0 \<le> switchUp (ctx p) \<and> switchUp (ctx p) < int (length (registrySwitches p)) \<and>
      0 \<le> switchDown (ctx p) \<and> switchDown (ctx p) < int (length (registrySwitches p)))"

definition relay_patch :: "nat \<Rightarrow> platform \<Rightarrow> string list" where
  "relay_patch state p =
     ((registrySwitches p)
        [nat (switchUp (ctx p)) := (if state = 0 then ''on'' else ''off'')])
        [nat (switchDown (ctx p)) := (if state = 1 then ''on'' else ''off'')]"

section \<open>Properties of the expiring cache\<close>

lemma expire_frame [simp]:
  "pending (expire c t) = pending c" "timerMap (expire c t) = timerMap c"
  "nextHandle (expire c t) = nextHandle c"
  by (simp_all add: expire_def Let_def)

lemma foldl_expire_frame [simp]:
  "pending (foldl expire c ts) = pending c" "timerMap (foldl expire c ts) = timerMap c"
  "nextHandle (foldl expire c ts) = nextHandle c"
  by (induction ts arbitrary: c) simp_all

lemma expire_other_key:
  assumes "timer_key t \<noteq> k"
  shows "cacheMap (expire c t) k = cacheMap c k" "expiries_of k (expire c t) = expiries_of k c"
  using assms by (simp_all add: expire_def Let_def expiries_of_def)

lemma foldl_expire_other_keys:
  assumes "\<forall>t\<in>set ts. timer_key t \<noteq> k"
  shows "cacheMap (foldl expire c ts) k = cacheMap c k \<and>
         expiries_of k (foldl expire c ts) = expiries_of k c"
  using assms by (induction ts arbitrary: c) (simp_all add: expire_other_key)

lemma expire_own_key:
  assumes "timer_key t = k" "cacheMap c k \<noteq> None"
  shows "cacheMap (expire c t) k = None"
        "expiries_of k (expire c t) = expiries_of k c @ [(due t, k)]"
  using assms by (auto simp: expire_def Let_def expiries_of_def)

lemma foldl_expire_single:
  assumes "filter (\<lambda>t. timer_key t = k) ts = [t]" "cacheMap c k \<noteq> None"
  shows "cacheMap (foldl expire c ts) k = None \<and>
         expiries_of k (foldl expire c ts) = expiries_of k c @ [(due t, k)]"
  using assms
proof (induction ts arbitrary: c)
  case Nil
  then show ?case by simp
next
  case (Cons x xs)
  show ?case
  proof (cases "timer_key x = k")
    case True
    with Cons.prems have x: "x = t" and rest: "filter (\<lambda>t. timer_key t = k) xs = []"
      by simp_all
    from rest have "\<forall>u\<in>set xs. timer_key u \<noteq> k"
      by (simp add: filter_empty_conv)
    from foldl_expire_other_keys [OF this, of "expire c x"]
    show ?thesis
      using expire_own_key [OF True Cons.prems(2)] x by simp
  next
    case False
    with Cons.prems have "filter (\<lambda>t. timer_key t = k) xs = [t]" by simp
    moreover have "cacheMap (expire c x) k \<noteq> None"
      using False Cons.prems(2) by (simp add: expire_other_key)
    ultimately show ?thesis
      using Cons.IH [of "expire c x"] False by (simp add: expire_other_key)
  qed
qed

lemma run_timers_frame [simp]:
  "pending (run_timers T c) = filter (\<lambda>t. \<not> due t \<le> T) (pending c)"
  "timerMap (run_timers T c) = timerMap c"
  "nextHandle (run_timers T c) = nextHandle c"
  by (simp_all add: run_timers_def)

lemma run_timers_none_due:
  assumes "\<forall>t\<in>set (pending c). timer_key t = k \<longrightarrow> T < due t"
  shows "cacheMap (run_timers T c) k = cacheMap c k"
        "expiries_of k (run_timers T c) = expiries_of k c"
proof -
  let ?c0 = "c\<lparr>pending := filter (\<lambda>t. \<not> due t \<le> T) (pending c)\<rparr>"
  have "\<forall>t\<in>set (sort_key due (filter (\<lambda>t. due t \<le> T) (pending c))). timer_key t \<noteq> k"
    using assms by auto
  from foldl_expire_other_keys [OF this, of ?c0]
  show "cacheMap (run_timers T c) k = cacheMap c k"
       "expiries_of k (run_timers T c) = expiries_of k c"
    by (simp_all add: run_timers_def expiries_of_def)
qed

lemma run_timers_single_due:
  assumes "filter (\<lambda>t. timer_key t = k) (pending c) = [t]" "due t \<le> T" "cacheMap c k \<noteq> None"
  shows "cacheMap (run_timers T c) k = None"
        "expiries_of k (run_timers T c) = expiries_of k c @ [(due t, k)]"
proof -
  let ?c0 = "c\<lparr>pending := filter (\<lambda>t. \<not> due t \<le> T) (pending c)\<rparr>"
  have "filter (\<lambda>t. timer_key t = k) (sort_key due (filter (\<lambda>t. due t \<le> T) (pending c)))
        = sort_key due (filter (\<lambda>t. due t \<le> T) (filter (\<lambda>t. timer_key t = k) (pending c)))"
    by (simp add: filter_sort conj_commute)
  also have "\<dots> = [t]"
    using assms(1,2) by simp
  finally have one: "filter (\<lambda>t. timer_key t = k)
      (sort_key due (filter (\<lambda>t. due t \<le> T) (pending c))) = [t]" .
  have "cacheMap ?c0 k \<noteq> None" using assms(3) by simp
  from foldl_expire_single [OF one this]
  show "cacheMap (run_timers T c) k = None"
       "expiries_of k (run_timers T c) = expiries_of k c @ [(due t, k)]"
    by (simp_all add: run_timers_def expiries_of_def)
qed

lemma cache_set_own_timer:
  assumes "\<forall>t\<in>set (pending c). timer_key t = k \<longrightarrow> timerMap c k = Some (handle t)"
  shows "filter (\<lambda>t. timer_key t = k) (pending (cache_set now k v ttl c))
           = [\<lparr>handle = nextHandle c, due = now + ttl, timer_key = k\<rparr>]"
proof -
  have "filter (\<lambda>t. timer_key t = k) (pending (clearTimer k c)) = []"
    using assms
    by (auto simp: clearTimer_def clearTimeout_def filter_empty_conv split: option.splits)
  moreover have "nextHandle (clearTimer k c) = nextHandle c"
    by (simp add: clearTimer_def split: option.splits)
  ultimately show ?thesis
    by (simp add: cache_set_def Let_def)
qed

lemma cache_set_fields:
  "cacheMap (cache_set now k v ttl c) = (cacheMap c)(k \<mapsto> v)"
  "timerMap (cache_set now k v ttl c) = (timerMap c)(k \<mapsto> nextHandle c)"
  "emitted (cache_set now k v ttl c) = emitted c"
  "nextHandle (cache_set now k v ttl c) = Suc (nextHandle c)"
  by (simp_all add: cache_set_def Let_def clearTimer_def split: option.splits)

lemma tracked_new_Cache: "tracked (new_Cache d)"
  by (simp add: tracked_def new_Cache_def)

lemma tracked_clearTimer: "tracked c \<Longrightarrow> tracked (clearTimer k c)"
  by (auto simp: tracked_def clearTimer_def clearTimeout_def split: option.splits)

lemma tracked_cache_set:
  assumes "tracked c"
  shows "tracked (cache_set now k v ttl c)"
proof -
  have "\<forall>t\<in>set (pending (clearTimer k c)). timer_key t \<noteq> k"
    using assms
    by (auto simp: tracked_def clearTimer_def clearTimeout_def split: option.splits)
  moreover have "timerMap (clearTimer k c) = timerMap c"
    by (simp add: clearTimer_def split: option.splits)
  moreover note tracked_clearTimer [OF assms, of k]
  ultimately show ?thesis
    by (auto simp: tracked_def cache_set_def Let_def)
qed

lemma tracked_cache_delete: "tracked c \<Longrightarrow> tracked (cache_delete k c)"
  by (auto simp: tracked_def cache_delete_def clearTimer_def clearTimeout_def
      split: option.splits)

lemma tracked_run_timers: "tracked c \<Longrightarrow> tracked (run_timers T c)"
  by (simp add: tracked_def)

text \<open>
  Claim C7. For every key \<open>k\<close>: \<^verbatim>\<open>set(k, v, ttl)\<close> at the instant \<open>t1\<close>,
  followed by \<^verbatim>\<open>set(k, v2, ttl)\<close> at an instant \<open>t2\<close> before \<open>ttl\<close> has
  elapsed, leaves one live timer for \<open>k\<close>, the one of the second call: the timer of
  the first call has been cancelled. Once the clock has passed \<open>t2 + ttl\<close>, the expiry
  events for \<open>k\<close> that were added are exactly one, emitted at \<open>t2 + ttl\<close>; an event
  is the key alone and carries no value; and the key is no longer in the cache. Timers
  of other keys may run in between.
\<close>

theorem cache_reset_single_expiry:
  assumes live: "tracked c"
    and order: "t1 \<le> t2" "t2 < t1 + ttl" "t2 + ttl \<le> T"
  shows "filter (\<lambda>t. timer_key t = k)
           (pending (cache_set t2 k v2 ttl (run_timers t2 (cache_set t1 k v ttl c))))
         = [\<lparr>handle = Suc (nextHandle c), due = t2 + ttl, timer_key = k\<rparr>] \<and>
         expiries_of k
           (run_timers T (cache_set t2 k v2 ttl (run_timers t2 (cache_set t1 k v ttl c))))
         = expiries_of k c @ [(t2 + ttl, k)] \<and>
         cache_get
           (run_timers T (cache_set t2 k v2 ttl (run_timers t2 (cache_set t1 k v ttl c)))) k
         = None"
proof -
  have inv: "\<forall>t\<in>set (pending c). timer_key t = k \<longrightarrow> timerMap c k = Some (handle t)"
    using live by (auto simp: tracked_def)
  let ?n1 = "\<lparr>handle = nextHandle c, due = t1 + ttl, timer_key = k\<rparr>"
  let ?n2 = "\<lparr>handle = Suc (nextHandle c), due = t2 + ttl, timer_key = k\<rparr>"
  let ?c1 = "cache_set t1 k v ttl c"
  let ?c1' = "run_timers t2 ?c1"
  let ?c2 = "cache_set t2 k v2 ttl ?c1'"
  have p1: "filter (\<lambda>t. timer_key t = k) (pending ?c1) = [?n1]"
    by (rule cache_set_own_timer [OF inv])
  have own1: "\<forall>t\<in>set (pending ?c1). timer_key t = k \<longrightarrow> t = ?n1"
  proof (intro ballI impI)
    fix t assume "t \<in> set (pending ?c1)" "timer_key t = k"
    then have "t \<in> set (filter (\<lambda>t. timer_key t = k) (pending ?c1))" by simp
    then show "t = ?n1" unfolding p1 by simp
  qed
  have notdue: "\<forall>t\<in>set (pending ?c1). timer_key t = k \<longrightarrow> t2 < due t"
  proof (intro ballI impI)
    fix t assume "t \<in> set (pending ?c1)" "timer_key t = k"
    with own1 have "t = ?n1" by blast
    then show "t2 < due t" using order(2) by simp
  qed
  have e1: "expiries_of k ?c1' = expiries_of k c"
    using run_timers_none_due(2) [OF notdue] by (simp add: expiries_of_def cache_set_fields)
  have inv1': "\<forall>t\<in>set (pending ?c1'). timer_key t = k \<longrightarrow> timerMap ?c1' k = Some (handle t)"
  proof (intro ballI impI)
    fix t assume "t \<in> set (pending ?c1')" "timer_key t = k"
    with own1 have "t = ?n1" by simp
    then show "timerMap ?c1' k = Some (handle t)" by (simp add: cache_set_fields)
  qed
  have p2: "filter (\<lambda>t. timer_key t = k) (pending ?c2) = [?n2]"
    using cache_set_own_timer [OF inv1', of t2 v2 ttl] by (simp add: cache_set_fields)
  have m2: "cacheMap ?c2 k \<noteq> None" by (simp add: cache_set_fields)
  have e2: "expiries_of k ?c2 = expiries_of k c"
    using e1 by (simp add: expiries_of_def cache_set_fields)
  have d2: "due ?n2 \<le> T" using order(3) by simp
  from run_timers_single_due [OF p2 d2 m2] e2 p2
  show ?thesis by (simp add: cache_get_def)
qed

theorem cache_reset_single_expiry_witness:
  "tracked (new_Cache 500 :: nat cache) \<and> (0::nat) \<le> 300 \<and> (300::nat) < 0 + 500 \<and>
   (300::nat) + 500 \<le> 2000 \<and>
   expiries_of ''a''
     (run_timers 2000 (cache_set 300 ''a'' (2::nat) 500
        (run_timers 300 (cache_set 0 ''a'' 1 500 (new_Cache 500)))))
   = [(800, ''a'')]"
  using cache_reset_single_expiry
    [where c = "new_Cache 500 :: nat cache" and k = "''a''" and ?t1.0 = 0 and ?t2.0 = 300
       and ttl = 500 and T = 2000 and ?v2.0 = 2 and v = 1]
  by (simp add: tracked_new_Cache) (simp add: new_Cache_def expiries_of_def tracked_def)

section \<open>Properties of the session manager\<close>

text \<open>
  Claim C9. The decoder returns the text \<^verbatim>\<open>pong\<close> unchanged when the raw
  payload is \<^verbatim>\<open>pong\<close>, whatever the JSON parser would do with that text (the
  comparison comes first, so the parser is not consulted), and every other payload is
  decoded by the JSON parser: a syntax error of the parser is the decoder's error, a
  parsed value is the decoder's value.
\<close>

theorem unpackMessage_pong_before_parse:
  "unpackMessage JSON_parse ''pong'' = Inr (Heartbeat ''pong'') \<and>
   (data \<noteq> ''pong'' \<longrightarrow>
      unpackMessage JSON_parse data = map_sum id Parsed (JSON_parse data))"
  by (cases "JSON_parse data") (simp_all add: unpackMessage_def)

theorem unpackMessage_pong_before_parse_witness:
  "unpackMessage (\<lambda>s. if s = ''{}'' then Inr (0::nat) else Inl ()) ''pong''
     = Inr (Heartbeat ''pong'') \<and>
   ''{}'' \<noteq> ''pong'' \<and>
   unpackMessage (\<lambda>s. if s = ''{}'' then Inr (0::nat) else Inl ()) ''{}'' = Inr (Parsed 0)"
  using unpackMessage_pong_before_parse
    [of "\<lambda>s. if s = ''{}'' then Inr (0::nat) else Inl ()" "''{}''"]
  by simp

lemma digit_value_digit_char: "d < 10 \<Longrightarrow> digit_value (digit_char d) = d"
proof -
  assume "d < 10"
  then have "d \<in> {0, 1, 2, 3, 4, 5, 6, 7, 8, 9}" by auto
  then show ?thesis
    by (auto simp: digit_value_def digit_char_def)
qed

lemma sequence_value_string_of_nat: "sequence_value (string_of_nat n) = n"
proof (induction n rule: string_of_nat.induct)
  case (1 n)
  show ?case
  proof (cases "n < 10")
    case True
    then show ?thesis
      by (subst string_of_nat.simps) (simp add: sequence_value_def digit_value_digit_char)
  next
    case False
    with 1 have ih: "sequence_value (string_of_nat (n div 10)) = n div 10" by simp
    have "sequence_value (string_of_nat n) =
          10 * sequence_value (string_of_nat (n div 10)) + digit_value (digit_char (n mod 10))"
      using False by (subst string_of_nat.simps) (simp add: sequence_value_def)
    also have "\<dots> = 10 * (n div 10) + n mod 10"
      by (simp add: ih digit_value_digit_char)
    finally show ?thesis by simp
  qed
qed

lemma sequence_value_getSequence: "sequence_value (getSequence now) = now"
  by (simp add: getSequence_def sequence_value_string_of_nat)

lemma getSequence_inject: "getSequence a = getSequence b \<longleftrightarrow> a = b"
  by (metis sequence_value_getSequence)

lemma requests_issue: "requests (issue rs i) = requests i @ map (\<lambda>r. getSequence (fst r)) rs"
  by (induction rs arbitrary: i) (simp_all add: issue_def request_def sendRequest_def split_beta)

lemma map_of_Object_assign:
  "map_of (Object_assign target source) = map_of target ++ map_of (rev source)"
  unfolding Object_assign_def
  by (induction source arbitrary: target) (auto simp: update_conv' split_beta)

text \<open>
  Claim C5, as stated: of two requests sent one after the other, the later one carries
  the strictly greater sequence value. Two requests sent within the same millisecond
  carry the same sequence value.
\<close>

theorem sequence_same_millisecond_counterexample:
  "requests (issue [(1000, [(''action'', JString ''query'')]),
                    (1000, [(''action'', JString ''update'')])]
               (new_WebSocketAsPromised ''wss://host''))
     = [''1000'', ''1000''] \<and>
   \<not> sequence_value (''1000'') < sequence_value (''1000'')"
  by (simp add: requests_issue new_WebSocketAsPromised_def getSequence_def
      string_of_nat.simps digit_char_def)

text \<open>
  Claim C5, amended. The sequence value of a request is the decimal rendering of the
  millisecond clock at the moment the request is sent. While the clock does not run
  backwards the sequence values of successive requests do not decrease; the value of a
  request sent at a later millisecond is strictly greater; two requests carry the same
  value exactly when they are sent within the same millisecond.
\<close>

theorem sequence_follows_clock:
  "map sequence_value (requests (issue rs (new_WebSocketAsPromised u))) = map fst rs \<and>
   (sorted (map fst rs) \<longrightarrow>
      sorted (map sequence_value (requests (issue rs (new_WebSocketAsPromised u))))) \<and>
   (t1 < t2 \<longrightarrow> sequence_value (getSequence t1) < sequence_value (getSequence t2)) \<and>
   (getSequence t1 = getSequence t2 \<longleftrightarrow> t1 = t2)"
proof -
  have "map sequence_value (requests (issue rs (new_WebSocketAsPromised u))) = map fst rs"
    by (simp add: requests_issue new_WebSocketAsPromised_def sequence_value_getSequence
        comp_def)
  then show ?thesis
    by (simp add: sequence_value_getSequence getSequence_inject)
qed

theorem sequence_follows_clock_witness:
  "map sequence_value
     (requests (issue [(1000, [(''action'', JString ''query'')]),
                       (1001, [(''action'', JString ''update'')])]
                 (new_WebSocketAsPromised ''wss://host''))) = [1000, 1001] \<and>
   sorted [1000, 1001 :: nat] \<and> (1000::nat) < 1001 \<and>
   sequence_value (getSequence 1000) < sequence_value (getSequence 1001)"
  using sequence_follows_clock
    [of "[(1000, [(''action'', JString ''query'')]), (1001, [(''action'', JString ''update'')])]"
        "''wss://host''" 1000 1001]
  by simp

lemma map_of_rev_distinct: "distinct (map fst xs) \<Longrightarrow> map_of (rev xs) = map_of xs"
proof (induction xs)
  case Nil
  then show ?case by simp
next
  case (Cons x xs)
  then have "fst x \<notin> dom (map_of xs)" by (simp add: dom_map_of_conv_image_fst)
  then have "[fst x \<mapsto> snd x] ++ map_of xs = (map_of xs)(fst x \<mapsto> snd x)"
    by (auto simp: map_add_def fun_eq_iff split: option.splits)
  with Cons show ?case by simp
qed

lemma attachRequestId_keeps_own_sequence:
  assumes "distinct (map fst data)" "map_of data ''sequence'' = Some s"
  shows "extractRequestId (attachRequestId data requestId) = Some s"
  using assms
  by (simp add: extractRequestId_def attachRequestId_def map_of_Object_assign
      map_of_rev_distinct map_add_def)

lemma login_payload_sequence:
  "distinct (map fst (login_payload cfg t1 tts nonce)) \<and>
   map_of (login_payload cfg t1 tts nonce) ''sequence'' = Some (JString (getSequence t1))"
  by (simp add: login_payload_def populateCommonApiRequestFields_def)

text \<open>
  Claim C10. \<^verbatim>\<open>attachRequestId\<close> keeps the \<^verbatim>\<open>sequence\<close> field that a payload
  already carries and drops the request id it is given. The login request of
  \<^verbatim>\<open>onopen\<close> sets \<^verbatim>\<open>payload.sequence\<close> from one reading of the clock and
  passes a second reading as the request id: the message on the wire carries the first,
  the request is registered under the second, and the two differ whenever the readings
  differ.
\<close>

theorem login_wire_sequence_is_payload_sequence:
  "(distinct (map fst data) \<and> map_of data ''sequence'' = Some s \<longrightarrow>
      extractRequestId (attachRequestId data requestId) = Some s) \<and>
   (instance c = Some i \<longrightarrow>
      onopen t1 tts nonce t2 c =
        Inr (c\<lparr>socketOpen := True,
               instance := Some (i\<lparr>packets := packets i @
                    [attachRequestId (login_payload (client_config c) t1 tts nonce) (getSequence t2)],
                  requests := requests i @ [getSequence t2]\<rparr>)\<rparr>) \<and>
      extractRequestId
        (attachRequestId (login_payload (client_config c) t1 tts nonce) (getSequence t2))
        = Some (JString (getSequence t1)) \<and>
      (t1 \<noteq> t2 \<longrightarrow> JString (getSequence t1) \<noteq> JString (getSequence t2)))"
proof -
  have "extractRequestId
        (attachRequestId (login_payload (client_config c) t1 tts nonce) (getSequence t2))
        = Some (JString (getSequence t1))"
    using login_payload_sequence [of "client_config c" t1 tts nonce]
    by (simp add: attachRequestId_keeps_own_sequence)
  then show ?thesis
    by (simp add: attachRequestId_keeps_own_sequence onopen_def Let_def request_def
        sendRequest_def getSequence_inject)
qed

theorem login_wire_sequence_is_payload_sequence_witness:
  "distinct (map fst [(''action'', JString ''query''), (''sequence'', JString ''7'')]) \<and>
   map_of [(''action'', JString ''query''), (''sequence'', JString ''7'')] ''sequence''
     = Some (JString ''7'') \<and>
   extractRequestId
     (attachRequestId [(''action'', JString ''query''), (''sequence'', JString ''7'')] ''9'')
     = Some (JString ''7'') \<and>
   instance (client_open ''wss://host''
       (new_WebSocketClient \<lparr>authenticationToken = ''at'', apiKey = ''key''\<rparr>))
     = Some (new_WebSocketAsPromised ''wss://host'') \<and>
   extractRequestId
     (attachRequestId
        (login_payload \<lparr>authenticationToken = ''at'', apiKey = ''key''\<rparr> 1000 1000 ''nonce'')
        (getSequence 1001))
     = Some (JString ''1000'') \<and>
   (1000::nat) \<noteq> 1001 \<and> JString ''1000'' \<noteq> JString (getSequence 1001)"
  using login_wire_sequence_is_payload_sequence
    [of "[(''action'', JString ''query''), (''sequence'', JString ''7'')]" "JString ''7''" "''9''"
        "client_open ''wss://host''
           (new_WebSocketClient \<lparr>authenticationToken = ''at'', apiKey = ''key''\<rparr>)"
        "new_WebSocketAsPromised ''wss://host''" 1000 1000 "''nonce''" 1001]
  by (simp add: client_open_def new_WebSocketClient_def getSequence_def string_of_nat.simps
      digit_char_def)

lemma reconnect_pending: "pendingReconnect c \<Longrightarrow> reconnect now c = c"
  by (simp add: reconnect_def)

lemma deliver_pending:
  "pendingReconnect c \<Longrightarrow>
     pendingReconnect (deliver c s) \<and> reconnects (deliver c s) = reconnects c \<and>
     autoReconnectInterval (deliver c s) = autoReconnectInterval c"
  by (cases s rule: abnormal.cases) (simp_all add: onClose_def onError_def reconnect_pending)

lemma deliver_all_pending:
  "pendingReconnect c \<Longrightarrow>
     pendingReconnect (foldl deliver c ss) \<and> reconnects (foldl deliver c ss) = reconnects c"
  by (induction ss arbitrary: c) (simp_all add: deliver_pending)

lemma deliver_normal:
  "\<not> abnormal s \<Longrightarrow>
     pendingReconnect (deliver c s) = pendingReconnect c \<and>
     reconnects (deliver c s) = reconnects c \<and>
     autoReconnectInterval (deliver c s) = autoReconnectInterval c"
  by (cases s rule: abnormal.cases) (simp_all add: onClose_def onError_def)

lemma deliver_abnormal:
  "abnormal s \<Longrightarrow> \<not> pendingReconnect c \<Longrightarrow>
     pendingReconnect (deliver c s) \<and>
     reconnects (deliver c s) = reconnects c @ [fst s + autoReconnectInterval c]"
  by (cases s rule: abnormal.cases) (simp_all add: onClose_def onError_def reconnect_def)

text \<open>
  Claim C6. From a client with no reconnect pending, any series of close and error
  signals handled before the reconnect timer runs arms exactly one reconnect timer if
  one of the signals is abnormal (a close code other than 1000, or a refused
  connection), due one reconnect interval after the first abnormal signal, and none
  otherwise: a close with code 1000 never arms one, and every call of
  \<^verbatim>\<open>reconnect\<close> after the first finds \<^verbatim>\<open>pendingReconnect\<close> set and does
  nothing.
\<close>

theorem reconnect_scheduled_once:
  assumes "\<not> pendingReconnect c"
  shows "reconnects (foldl deliver c ss) =
           reconnects c @
           (case filter abnormal ss of
              [] \<Rightarrow> []
            | s # _ \<Rightarrow> [fst s + autoReconnectInterval c])"
  using assms
proof (induction ss arbitrary: c)
  case Nil
  then show ?case by simp
next
  case (Cons s ss)
  show ?case
  proof (cases "abnormal s")
    case True
    from deliver_abnormal [OF True Cons.prems]
    have "pendingReconnect (deliver c s)"
      and "reconnects (deliver c s) = reconnects c @ [fst s + autoReconnectInterval c]"
      by simp_all
    with deliver_all_pending [of "deliver c s" ss] True show ?thesis by simp
  next
    case False
    from deliver_normal [OF False, of c] Cons.prems Cons.IH [of "deliver c s"] False
    show ?thesis by (simp split: list.splits)
  qed
qed

theorem reconnect_scheduled_once_witness:
  "\<not> pendingReconnect (client_open ''wss://host''
       (new_WebSocketClient \<lparr>authenticationToken = ''at'', apiKey = ''key''\<rparr>)) \<and>
   reconnects (foldl deliver
      (client_open ''wss://host''
         (new_WebSocketClient \<lparr>authenticationToken = ''at'', apiKey = ''key''\<rparr>))
      [(10, Close 1000), (20, Close 1006), (30, Failure ''ECONNREFUSED''), (40, Close 1006)])
     = [5020] \<and>
   reconnects (foldl deliver
      (client_open ''wss://host''
         (new_WebSocketClient \<lparr>authenticationToken = ''at'', apiKey = ''key''\<rparr>))
      [(10, Close 1000)])
     = []"
  using reconnect_scheduled_once
    [of "client_open ''wss://host''
           (new_WebSocketClient \<lparr>authenticationToken = ''at'', apiKey = ''key''\<rparr>)"
        "[(10, Close 1000), (20, Close 1006), (30, Failure ''ECONNREFUSED''), (40, Close 1006)]"]
    reconnect_scheduled_once
    [of "client_open ''wss://host''
           (new_WebSocketClient \<lparr>authenticationToken = ''at'', apiKey = ''key''\<rparr>)"
        "[(10, Close 1000)]"]
  by (simp add: client_open_def new_WebSocketClient_def)

lemma cache_set_default_stored:
  "cache_get (cache_set_default now k v c) k = Some v \<and>
   last (pending (cache_set_default now k v c))
     = \<lparr>handle = nextHandle c, due = now + defaultCacheDuration c, timer_key = k\<rparr>"
  by (simp add: cache_set_default_def cache_get_def cache_set_def Let_def clearTimer_def
      split: option.splits)

lemma query_payload_fields:
  "map_of (query_payload cfg deviceId now_ts nonce) ''action'' = Some (JString ''query'') \<and>
   map_of (query_payload cfg deviceId now_ts nonce) ''deviceid'' = Some (JString deviceId) \<and>
   map_of (query_payload cfg deviceId now_ts nonce) ''sequence'' = None"
  by (simp add: query_payload_def populateCommonApiRequestFields_def)

text \<open>
  Claim C8. \<^verbatim>\<open>getDeviceStatus\<close> resolves at once with the cached snapshot when the
  cache holds one for the device, without a pause and without a request. On a miss it
  pauses for \<open>random * 200 + 200\<close> milliseconds, which lies between 200 and 400, then
  sends the query. When the request succeeds, the result is stored in the cache under
  the device id, with a timer due one default cache duration later, and the promise
  resolves with the result; when the request fails, the promise is rejected with the
  error and the client, its cache included, is unchanged.
\<close>

theorem getDeviceStatus_cache_first:
  "(cache_get (deviceStatusMap c) deviceId = Some v \<longrightarrow>
      getDeviceStatus c deviceId now_ts nonce random = Inl (Resolved v)) \<and>
   (cache_get (deviceStatusMap c) deviceId = None \<and> 0 \<le> random \<and> random < 1 \<longrightarrow>
      getDeviceStatus c deviceId now_ts nonce random
        = Inr (random * 200 + 200, query_payload (client_config c) deviceId now_ts nonce) \<and>
      200 \<le> random * 200 + 200 \<and> random * 200 + 200 < 400) \<and>
   (instance c = Some i \<longrightarrow>
      getDeviceStatus_after_pause now (query_payload (client_config c) deviceId now_ts nonce) c
        = Inr (c\<lparr>instance := Some
             (request now (query_payload (client_config c) deviceId now_ts nonce) i)\<rparr>) \<and>
      map_of (last (packets
          (request now (query_payload (client_config c) deviceId now_ts nonce) i))) ''action''
        = Some (JString ''query'')) \<and>
   fst (getDeviceStatus_settle now deviceId (Inr result) c) = Resolved result \<and>
   cache_get (deviceStatusMap (snd (getDeviceStatus_settle now deviceId (Inr result) c)))
     deviceId = Some result \<and>
   last (pending (deviceStatusMap (snd (getDeviceStatus_settle now deviceId (Inr result) c))))
     = \<lparr>handle = nextHandle (deviceStatusMap c),
        due = now + defaultCacheDuration (deviceStatusMap c), timer_key = deviceId\<rparr> \<and>
   getDeviceStatus_settle now deviceId (Inl err) c = (Rejected err, c)"
proof -
  have "map_of (attachRequestId (query_payload (client_config c) deviceId now_ts nonce)
          (getSequence now)) ''action'' = Some (JString ''query'')"
    using query_payload_fields [of "client_config c" deviceId now_ts nonce]
    by (simp add: attachRequestId_def map_of_Object_assign map_add_def
        map_of_rev_distinct query_payload_def populateCommonApiRequestFields_def)
  then show ?thesis
    using cache_set_default_stored [of now deviceId result "deviceStatusMap c"]
    by (simp add: getDeviceStatus_def getDeviceStatus_after_pause_def
        getDeviceStatus_settle_def Let_def request_def sendRequest_def)
qed

theorem getDeviceStatus_cache_first_witness:
  "cache_get (deviceStatusMap
      (snd (getDeviceStatus_settle 1000 ''d1'' (Inr [(''error'', JNumber 0)])
         (client_open ''wss://host''
            (new_WebSocketClient \<lparr>authenticationToken = ''at'', apiKey = ''key''\<rparr>))))) ''d1''
     = Some [(''error'', JNumber 0)] \<and>
   getDeviceStatus
     (snd (getDeviceStatus_settle 1000 ''d1'' (Inr [(''error'', JNumber 0)])
         (client_open ''wss://host''
            (new_WebSocketClient \<lparr>authenticationToken = ''at'', apiKey = ''key''\<rparr>))))
     ''d1'' 1 ''nonce'' (1 / 2) = Inl (Resolved [(''error'', JNumber 0)]) \<and>
   cache_get (deviceStatusMap (client_open ''wss://host''
       (new_WebSocketClient \<lparr>authenticationToken = ''at'', apiKey = ''key''\<rparr>))) ''d1'' = None \<and>
   (0::real) \<le> 1 / 2 \<and> (1 / 2 :: real) < 1 \<and>
   getDeviceStatus (client_open ''wss://host''
       (new_WebSocketClient \<lparr>authenticationToken = ''at'', apiKey = ''key''\<rparr>))
     ''d1'' 1 ''nonce'' (1 / 2)
     = Inr (300, query_payload \<lparr>authenticationToken = ''at'', apiKey = ''key''\<rparr> ''d1'' 1 ''nonce'') \<and>
   instance (client_open ''wss://host''
       (new_WebSocketClient \<lparr>authenticationToken = ''at'', apiKey = ''key''\<rparr>))
     = Some (new_WebSocketAsPromised ''wss://host'')"
  using getDeviceStatus_cache_first
    [of "snd (getDeviceStatus_settle 1000 ''d1'' (Inr [(''error'', JNumber 0)])
         (client_open ''wss://host''
            (new_WebSocketClient \<lparr>authenticationToken = ''at'', apiKey = ''key''\<rparr>)))"
        "''d1''" "[(''error'', JNumber 0)]" 1 "''nonce''" "1 / 2"]
    getDeviceStatus_cache_first
    [of "client_open ''wss://host''
            (new_WebSocketClient \<lparr>authenticationToken = ''at'', apiKey = ''key''\<rparr>)"
        "''d1''" "[(''error'', JNumber 0)]" 1 "''nonce''" "1 / 2"
        "new_WebSocketAsPromised ''wss://host''" 1000 "[(''error'', JNumber 0)]"]
  by (simp add: client_open_def new_WebSocketClient_def new_Cache_def cache_get_def)

section \<open>Properties of the motion controller\<close>

lemma prepare_ready:
  assumes "payload_ready p"
  shows "prepareBlindSwitchesPayload p =
           Inr (p\<lparr>registrySwitches := relay_patch (currentPositionState (ctx p)) p\<rparr>)"
  using assms
  by (simp add: payload_ready_def prepareBlindSwitchesPayload_def write_switch_def Let_def
      relay_patch_def)

lemma length_relay_patch [simp]: "length (relay_patch s p) = length (registrySwitches p)"
  by (simp add: relay_patch_def)

lemma setFinalBlindsState_ready:
  assumes "payload_ready p"
  shows "setFinalBlindsState now p =
           Inr (p\<lparr>ctx := (ctx p)\<lparr>currentPositionState := 2\<rparr>,
                  registrySwitches := relay_patch 2 p,
                  timers := timers p @ [(now + 1, FinalState)]\<rparr>)"
proof -
  let ?q = "p\<lparr>ctx := (ctx p)\<lparr>currentPositionState := 2\<rparr>\<rparr>"
  have "payload_ready ?q" using assms by (simp add: payload_ready_def)
  from prepare_ready [OF this] show ?thesis
    by (simp add: setFinalBlindsState_def setTimeout_def relay_patch_def)
qed

lemma setTargetPosition_stopped:
  assumes "currentPositionState (ctx p) = 2" "lastPosition (ctx p) \<noteq> pos" "payload_ready p"
  shows "setTargetPosition now pos p =
           Inr (p\<lparr>ctx := (ctx p)\<lparr>currentTargetPosition := pos,
                      startTimestamp := now,
                      targetTimestamp :=
                        now + Math_round (drive_duration (ctx p) pos * 100) / 100 * 1000,
                      currentPositionState := (if pos > lastPosition (ctx p) then 0 else 1)\<rparr>,
                  PositionState := (if pos > lastPosition (ctx p) then 0 else 1),
                  registrySwitches :=
                    relay_patch (if pos > lastPosition (ctx p) then 0 else 1) p,
                  timers := timers p @ [(now + 1, StartMotion)]\<rparr>)"
proof -
  let ?c1 = "(ctx p)\<lparr>currentTargetPosition := pos,
                      startTimestamp := now,
                      targetTimestamp :=
                        now + Math_round (drive_duration (ctx p) pos * 100) / 100 * 1000,
                      currentPositionState := (if pos > lastPosition (ctx p) then 0 else 1)\<rparr>"
  let ?q = "p\<lparr>ctx := ?c1, PositionState := (if pos > lastPosition (ctx p) then 0 else 1)\<rparr>"
  have "payload_ready ?q" using assms(3) by (simp add: payload_ready_def)
  from prepare_ready [OF this] show ?thesis
    using assms(1,2)
    by (simp add: setTargetPosition_def Let_def setTimeout_def relay_patch_def)
qed

lemmas example_defs =
  example_group_def blind_context_def idle_platform_def or_zero_def payload_ready_def

lemmas eval_defs =
  example_defs getBlindState_def read_switch_def MAPPING_def
  updateBlindStateCharacteristic_def force_target_def actualPosition_def
  host_set_TargetPosition_def setTargetPosition_def callback_def Let_def
  getPositionState_then_def getPositionState_catch_def setFinalBlindsState_def
  prepareBlindSwitchesPayload_def write_switch_def setTimeout_def updateDeviceStatus_def
  drive_duration_def Math_round_def

lemma setTargetPosition_extend:
  assumes "currentPositionState (ctx q) = 0" "pos \<noteq> currentTargetPosition (ctx q)"
    and "(targetTimestamp (ctx q) - now) +
          Math_round (percentDurationUp (ctx q) * (pos - currentTargetPosition (ctx q))) > 0"
  shows "setTargetPosition now pos q =
           Inr (callback (q\<lparr>ctx := (ctx q)\<lparr>targetTimestamp := targetTimestamp (ctx q) +
                    Math_round (percentDurationUp (ctx q) * (pos - currentTargetPosition (ctx q))),
                  currentTargetPosition := pos\<rparr>\<rparr>))"
  using assms by (simp add: setTargetPosition_def Let_def)

lemma durationUp_is_in_seconds:
  "\<exists>p1. setTargetPosition 1000 50
          (idle_platform (blind_context (example_group\<lparr>time_up := 10000\<rparr>) 0)
             [''off'', ''off'']) = Inr p1 \<and>
        targetTimestamp (ctx p1) = 1000 + 5000000"
  by (simp add: eval_defs)

text \<open>
  Claim C1. A covering stopped at position 0 whose full upward travel takes 10000 ms
  (the context keeps \<^verbatim>\<open>durationUp\<close> in seconds and
  \<^verbatim>\<open>percentDurationUp = durationUp / 100 * 1000\<close> in milliseconds per percent),
  with no margins and no overdrive: \<^verbatim>\<open>setTargetPosition(50)\<close> at the instant
  \<open>now\<close> leaves it moving up with \<^verbatim>\<open>targetTimestamp = now + 5000\<close>. A
  \<^verbatim>\<open>setTargetPosition(100)\<close> that follows before \<open>now + 10000\<close> (so that
  \<^verbatim>\<open>diff > 0\<close>), in any state of the platform whose context is the one the
  first call left, adds 5000 to \<^verbatim>\<open>targetTimestamp\<close>, sets \<^verbatim>\<open>currentTargetPosition\<close> to
  100 and acknowledges the call; the direction, the commands sent, the timers and the
  relay snapshot are unchanged.
\<close>

theorem same_direction_extension:
  assumes stopped: "currentPositionState (ctx p) = 2" "lastPosition (ctx p) = 0"
    and travel: "durationUp (ctx p) * 1000 = 10000"
                "percentDurationUp (ctx p) = (durationUp (ctx p) / 100) * 1000"
    and plain: "durationBMU (ctx p) = 0" "durationBMD (ctx p) = 0" "fullOverdrive (ctx p) = 0"
    and ready: "payload_ready p"
  shows "\<exists>p1. setTargetPosition now 50 p = Inr p1 \<and>
           currentPositionState (ctx p1) = 0 \<and> targetTimestamp (ctx p1) = now + 5000 \<and>
           (\<forall>q now2. ctx q = ctx p1 \<and> now2 < now + 10000 \<longrightarrow>
              (\<exists>q2. setTargetPosition now2 100 q = Inr q2 \<and>
                 q2 = callback (q\<lparr>ctx := (ctx q)\<lparr>targetTimestamp :=
                                       targetTimestamp (ctx q) + 5000,
                                     currentTargetPosition := 100\<rparr>\<rparr>) \<and>
                 targetTimestamp (ctx q2) = now + 10000 \<and>
                 currentTargetPosition (ctx q2) = 100 \<and>
                 currentPositionState (ctx q2) = 0 \<and>
                 commands q2 = commands q \<and> timers q2 = timers q \<and>
                 registrySwitches q2 = registrySwitches q))"
proof -
  from travel(1) have up: "durationUp (ctx p) = 10" by simp
  have dur: "drive_duration (ctx p) 50 = 5"
    using stopped(2) up plain by (simp add: drive_duration_def Let_def)
  have r5: "Math_round (5 * 100) / 100 * 1000 = 5000"
    by (simp add: Math_round_def)
  let ?p1 = "p\<lparr>ctx := (ctx p)\<lparr>currentTargetPosition := 50, startTimestamp := now,
                      targetTimestamp := now + 5000, currentPositionState := 0\<rparr>,
                PositionState := 0, registrySwitches := relay_patch 0 p,
                timers := timers p @ [(now + 1, StartMotion)]\<rparr>"
  have p1: "setTargetPosition now 50 p = Inr ?p1"
    using setTargetPosition_stopped [OF stopped(1) _ ready, of 50 now] stopped(2) dur r5
    by simp
  have extend: "\<exists>q2. setTargetPosition now2 100 q = Inr q2 \<and>
                 q2 = callback (q\<lparr>ctx := (ctx q)\<lparr>targetTimestamp :=
                                       targetTimestamp (ctx q) + 5000,
                                     currentTargetPosition := 100\<rparr>\<rparr>) \<and>
                 targetTimestamp (ctx q2) = now + 10000 \<and>
                 currentTargetPosition (ctx q2) = 100 \<and>
                 currentPositionState (ctx q2) = 0 \<and>
                 commands q2 = commands q \<and> timers q2 = timers q \<and>
                 registrySwitches q2 = registrySwitches q"
    if q: "ctx q = ctx ?p1" "now2 < now + 10000" for q now2
  proof -
    have pd: "percentDurationUp (ctx q) = 100"
      using q(1) travel(2) up by simp
    have dt: "Math_round (percentDurationUp (ctx q) * (100 - currentTargetPosition (ctx q)))
              = 5000"
      using q(1) pd by (simp add: Math_round_def)
    have "setTargetPosition now2 100 q =
           Inr (callback (q\<lparr>ctx := (ctx q)\<lparr>targetTimestamp := targetTimestamp (ctx q) + 5000,
                  currentTargetPosition := 100\<rparr>\<rparr>))"
      using setTargetPosition_extend [of q 100 now2] q dt by simp
    then show ?thesis using q(1) by (simp add: callback_def)
  qed
  show ?thesis
  proof (rule exI [of _ ?p1], intro conjI allI impI)
    show "setTargetPosition now 50 p = Inr ?p1" by (rule p1)
    show "currentPositionState (ctx ?p1) = 0" by simp
    show "targetTimestamp (ctx ?p1) = now + 5000" by simp
  next
    fix q :: platform and now2 :: real
    assume "ctx q = ctx ?p1 \<and> now2 < now + 10000"
    then have "ctx q = ctx ?p1" "now2 < now + 10000" by blast+
    then show "\<exists>q2. setTargetPosition now2 100 q = Inr q2 \<and>
                 q2 = callback (q\<lparr>ctx := (ctx q)\<lparr>targetTimestamp :=
                                       targetTimestamp (ctx q) + 5000,
                                     currentTargetPosition := 100\<rparr>\<rparr>) \<and>
                 targetTimestamp (ctx q2) = now + 10000 \<and>
                 currentTargetPosition (ctx q2) = 100 \<and>
                 currentPositionState (ctx q2) = 0 \<and>
                 commands q2 = commands q \<and> timers q2 = timers q \<and>
                 registrySwitches q2 = registrySwitches q"
      by (rule extend)
  qed
qed

theorem same_direction_extension_witness:
  "currentPositionState (ctx (idle_platform (blind_context example_group 0) [''off'', ''off''])) = 2 \<and>
   durationUp (ctx (idle_platform (blind_context example_group 0) [''off'', ''off''])) * 1000
     = 10000 \<and>
   payload_ready (idle_platform (blind_context example_group 0) [''off'', ''off'']) \<and>
   (\<exists>p1 q2. setTargetPosition 1000 50
               (idle_platform (blind_context example_group 0) [''off'', ''off'']) = Inr p1 \<and>
      targetTimestamp (ctx p1) = 6000 \<and> currentPositionState (ctx p1) = 0 \<and>
      (1000::real) < 1000 + 10000 \<and>
      setTargetPosition 1000 100 p1 = Inr q2 \<and>
      targetTimestamp (ctx q2) = 11000 \<and> currentTargetPosition (ctx q2) = 100 \<and>
      currentPositionState (ctx q2) = 0 \<and> commands q2 = [] \<and>
      timers q2 = [(1001, StartMotion)])"
proof -
  let ?e = "idle_platform (blind_context example_group 0) [''off'', ''off'']"
  have h: "currentPositionState (ctx ?e) = 2" "lastPosition (ctx ?e) = 0"
    "durationUp (ctx ?e) * 1000 = 10000"
    "percentDurationUp (ctx ?e) = (durationUp (ctx ?e) / 100) * 1000"
    "durationBMU (ctx ?e) = 0" "durationBMD (ctx ?e) = 0" "fullOverdrive (ctx ?e) = 0"
    "payload_ready ?e"
    by (simp_all add: example_defs)
  from same_direction_extension [OF h, of 1000]
  obtain p1 where p1: "setTargetPosition 1000 50 ?e = Inr p1"
    "currentPositionState (ctx p1) = 0" "targetTimestamp (ctx p1) = 1000 + 5000"
    and ext: "\<forall>q now2. ctx q = ctx p1 \<and> now2 < 1000 + 10000 \<longrightarrow>
              (\<exists>q2. setTargetPosition now2 100 q = Inr q2 \<and>
                 q2 = callback (q\<lparr>ctx := (ctx q)\<lparr>targetTimestamp :=
                                       targetTimestamp (ctx q) + 5000,
                                     currentTargetPosition := 100\<rparr>\<rparr>) \<and>
                 targetTimestamp (ctx q2) = 1000 + 10000 \<and>
                 currentTargetPosition (ctx q2) = 100 \<and>
                 currentPositionState (ctx q2) = 0 \<and>
                 commands q2 = commands q \<and> timers q2 = timers q \<and>
                 registrySwitches q2 = registrySwitches q)"
    by blast
  from ext [rule_format, of p1 1000]
  obtain q2 where q2: "setTargetPosition 1000 100 p1 = Inr q2"
    "targetTimestamp (ctx q2) = 1000 + 10000" "currentTargetPosition (ctx q2) = 100"
    "currentPositionState (ctx q2) = 0" "commands q2 = commands p1" "timers q2 = timers p1"
    by auto
  have "commands p1 = [] \<and> timers p1 = [(1001, StartMotion)]"
    using p1(1) setTargetPosition_stopped [OF h(1) _ h(8), of 50 1000]
    by (auto simp: example_defs)
  with h p1 q2 show ?thesis by auto
qed

text \<open>
  Claim C2, as stated: the bottom margin of the direction of travel is added only when
  the motion leaves position 0. A covering stopped at 50 and sent to 0 travels for
  \<open>50 / 100 * (20 - 2) + 2 = 11\<close> seconds: the downward margin is added although the
  motion does not leave position 0; the claim's reading gives 9.
\<close>

theorem bottom_margin_on_arrival_counterexample:
  "lastPosition (blind_context
      \<lparr>relay_up = 1, relay_down = 2, time_up = 20, time_down = 20,
       time_botton_margin_up = Some 2, time_botton_margin_down = Some 2,
       full_overdrive = None\<rparr> 50) \<noteq> 0 \<and>
   drive_duration (blind_context
      \<lparr>relay_up = 1, relay_down = 2, time_up = 20, time_down = 20,
       time_botton_margin_up = Some 2, time_botton_margin_down = Some 2,
       full_overdrive = None\<rparr> 50) 0 = 11 \<and>
   duration_by_claim (blind_context
      \<lparr>relay_up = 1, relay_down = 2, time_up = 20, time_down = 20,
       time_botton_margin_up = Some 2, time_botton_margin_down = Some 2,
       full_overdrive = None\<rparr> 50) 0 = 9"
  by (simp add: blind_context_def drive_duration_def duration_by_claim_def or_zero_def Let_def)

text \<open>
  Claim C2, amended. For a stopped covering and a target other than its last position,
  the drive duration, before it is rounded to hundredths of a second, is the distance
  over 100 times the full travel time of the direction less its bottom margin, plus
  \<^verbatim>\<open>durationBMU\<close> when the covering moves up from position 0, plus
  \<^verbatim>\<open>durationBMD\<close> when it moves down to position 0, plus
  \<^verbatim>\<open>fullOverdrive\<close> exactly when the target is 0 or 100; the motion starts at
  \<open>now\<close> and \<^verbatim>\<open>targetTimestamp\<close> is \<open>now\<close> plus the rounded duration in
  milliseconds.
\<close>

theorem drive_duration_of_stopped_covering:
  assumes "currentPositionState (ctx p) = 2" "pos \<noteq> lastPosition (ctx p)" "payload_ready p"
  shows "drive_duration (ctx p) pos =
           (if pos > lastPosition (ctx p)
            then (pos - lastPosition (ctx p)) / 100 * (durationUp (ctx p) - durationBMU (ctx p))
            else (lastPosition (ctx p) - pos) / 100 *
                   (durationDown (ctx p) - durationBMD (ctx p)))
           + (if pos > lastPosition (ctx p) \<and> lastPosition (ctx p) = 0
              then durationBMU (ctx p) else 0)
           + (if pos < lastPosition (ctx p) \<and> pos = 0 then durationBMD (ctx p) else 0)
           + (if pos = 0 \<or> pos = 100 then fullOverdrive (ctx p) else 0) \<and>
         (\<exists>p1. setTargetPosition now pos p = Inr p1 \<and>
            startTimestamp (ctx p1) = now \<and>
            targetTimestamp (ctx p1) =
              now + Math_round (drive_duration (ctx p) pos * 100) / 100 * 1000)"
proof -
  have "\<exists>p1. setTargetPosition now pos p = Inr p1 \<and>
            startTimestamp (ctx p1) = now \<and>
            targetTimestamp (ctx p1) =
              now + Math_round (drive_duration (ctx p) pos * 100) / 100 * 1000"
    using setTargetPosition_stopped [OF assms(1) _ assms(3), of pos now] assms(2) by simp
  moreover have "drive_duration (ctx p) pos =
           (if pos > lastPosition (ctx p)
            then (pos - lastPosition (ctx p)) / 100 * (durationUp (ctx p) - durationBMU (ctx p))
            else (lastPosition (ctx p) - pos) / 100 *
                   (durationDown (ctx p) - durationBMD (ctx p)))
           + (if pos > lastPosition (ctx p) \<and> lastPosition (ctx p) = 0
              then durationBMU (ctx p) else 0)
           + (if pos < lastPosition (ctx p) \<and> pos = 0 then durationBMD (ctx p) else 0)
           + (if pos = 0 \<or> pos = 100 then fullOverdrive (ctx p) else 0)"
    using assms(2) by (auto simp: drive_duration_def Let_def field_simps)
  ultimately show ?thesis by blast
qed

theorem drive_duration_of_stopped_covering_witness:
  "currentPositionState (ctx (idle_platform (blind_context
      \<lparr>relay_up = 1, relay_down = 2, time_up = 20, time_down = 20,
       time_botton_margin_up = Some 2, time_botton_margin_down = Some 2,
       full_overdrive = Some 1\<rparr> 50) [''off'', ''off''])) = 2 \<and>
   (0::real) \<noteq> 50 \<and>
   payload_ready (idle_platform (blind_context
      \<lparr>relay_up = 1, relay_down = 2, time_up = 20, time_down = 20,
       time_botton_margin_up = Some 2, time_botton_margin_down = Some 2,
       full_overdrive = Some 1\<rparr> 50) [''off'', ''off'']) \<and>
   drive_duration (ctx (idle_platform (blind_context
      \<lparr>relay_up = 1, relay_down = 2, time_up = 20, time_down = 20,
       time_botton_margin_up = Some 2, time_botton_margin_down = Some 2,
       full_overdrive = Some 1\<rparr> 50) [''off'', ''off''])) 0 = 9 + 0 + 2 + 1"
  using drive_duration_of_stopped_covering
    [of "idle_platform (blind_context
      \<lparr>relay_up = 1, relay_down = 2, time_up = 20, time_down = 20,
       time_botton_margin_up = Some 2, time_botton_margin_down = Some 2,
       full_overdrive = Some 1\<rparr> 50) [''off'', ''off'']" 0 1000]
  by (simp add: example_defs)

lemma stop_timer_settles:
  "\<exists>q1. fire t FinalState q = Inr q1 \<and>
     lastPosition (ctx q1) = currentTargetPosition (ctx q1) \<and>
     currentTargetPosition (ctx q1) = currentTargetPosition (ctx q) \<and>
     currentPositionState (ctx q1) = 2 \<and>
     commands q1 = commands q @ [registrySwitches q]"
  by (simp add: Let_def updateDeviceStatus_def)

lemma setTargetPosition_at_rest:
  "currentPositionState (ctx p) = 2 \<Longrightarrow>
     setTargetPosition now (lastPosition (ctx p)) p = Inr (callback p)"
  by (simp add: setTargetPosition_def Let_def)

lemma start_timer_throws:
  assumes "currentPositionState (ctx p) = 2" "lastPosition (ctx p) \<noteq> pos" "payload_ready p"
    and "timers p = []" "now + 1 \<le> T"
  shows "\<exists>p1. setTargetPosition now pos p = Inr p1 \<and>
           currentPositionState (ctx p1) \<noteq> 2 \<and>
           lastPosition (ctx p1) \<noteq> currentTargetPosition (ctx p1) \<and>
           run (Suc n) T p1 = Some (Inl (TypeError, p1\<lparr>timers := []\<rparr>))"
  using setTargetPosition_stopped [OF assms(1,2,3), of now] assms(2,4,5)
  by auto

text \<open>
  Claim C3, evaluated where the code departs from it. A covering stopped at position 0
  with no timer pending is sent to 50 at the instant 1000. \<^verbatim>\<open>setTargetPosition\<close>
  leaves it moving up towards 50, with the deadline 6000 and its 1 ms timer armed. When
  the runtime runs that timer, the callback throws a \<^verbatim>\<open>TypeError\<close> at
  \<^verbatim>\<open>this.apiClient\<close>: no command has been sent, the completion poll is not
  armed, and the stop routine is never called. However long the run, the covering is
  left moving up with \<^verbatim>\<open>lastPosition\<close> 0 and
  \<^verbatim>\<open>currentTargetPosition\<close> 50.
\<close>

theorem completion_poll_never_armed:
  "\<exists>p1. setTargetPosition 1000 50
          (idle_platform (blind_context example_group 0) [''off'', ''off'']) = Inr p1 \<and>
     currentPositionState (ctx p1) = 0 \<and> lastPosition (ctx p1) = 0 \<and>
     currentTargetPosition (ctx p1) = 50 \<and> targetTimestamp (ctx p1) = 6000 \<and>
     timers p1 = [(1001, StartMotion)] \<and> commands p1 = [] \<and>
     (\<forall>n. run (Suc n) 6101 p1 = Some (Inl (TypeError, p1\<lparr>timers := []\<rparr>)))"
  by (simp add: eval_defs)

text \<open>
  Claim C4, evaluated where the code departs from it. A covering is stopped at position
  100 and a status push reports both relays on. \<^verbatim>\<open>getBlindState\<close> returns 3;
  \<^verbatim>\<open>updateBlindStateCharacteristic\<close> moves the target to the estimated position
  and the deadline to 10 ms ahead, then fails in the host's handler for the target
  position (had the handler reached \<^verbatim>\<open>setTargetPosition\<close>, the call with the
  last position of a stopped covering would have done nothing, lemma
  \<open>setTargetPosition_at_rest\<close>). When the exception leaves it, no command has been
  sent and no timer is armed, and nothing acts on the deadline afterwards. On the same snapshot the branch of
  \<^verbatim>\<open>getPositionState\<close> calls the stop routine, whose timer commands both relays
  off.
\<close>

theorem error_snapshot_while_stopped_commands_nothing:
  "getBlindState [''on'', ''on''] (blind_context example_group 100) = Inr 3 \<and>
   (\<exists>p1. updateBlindStateCharacteristic 5000 [''on'', ''on'']
            (idle_platform (blind_context example_group 100) [''off'', ''off''])
          = Inl (TypeError, p1) \<and>
      currentPositionState (ctx p1) = 2 \<and> commands p1 = [] \<and> timers p1 = [] \<and>
      run 1 6000 p1 = Some (Inr p1)) \<and>
   (\<exists>p2 p3. getPositionState_then 5000 2 [''on'', ''on'']
            (idle_platform (blind_context example_group 100) [''off'', ''off'']) = (Inr 2, p2) \<and>
      run 2 6000 p2 = Some (Inr p3) \<and> commands p3 = [[''off'', ''off'']])"
  by (simp add: eval_defs numeral_2_eq_2)

end
